theory Spec2Isabelle
  imports Complex_Main "HOL-Library.Char_ord" "HOL-Library.List_Lexorder" "HOL-Library.AList"
    "HOL-Library.Multiset"
begin

section \<open>Python values used by \<^verbatim>\<open>kevlar/call.py\<close>\<close>

text \<open>
  Strings are \<^typ>\<open>string\<close>, one \<^typ>\<open>char\<close> per code point, and the model covers ASCII
  text (sequence names, nucleotides and operation strings are ASCII): the character classes
  \<^verbatim>\<open>\d\<close> and \<^verbatim>\<open>\S\<close> and \<^verbatim>\<open>str.upper\<close> are modelled on the
  code points below 128. Python integers are \<^typ>\<open>int\<close>. Every exception the code can raise
  is a value of \<open>error\<close>, and a function that can raise returns \<open>error + 'a\<close>.
\<close>

datatype error = AssertionError | IndexError | ZeroDivisionError | TypeError

definition bind :: "error + 'a \<Rightarrow> ('a \<Rightarrow> error + 'b) \<Rightarrow> error + 'b" where
  "bind m f = (case m of Inl e \<Rightarrow> Inl e | Inr x \<Rightarrow> f x)"

definition is_digit :: "char \<Rightarrow> bool" where
  "is_digit c = (CHR ''0'' \<le> c \<and> c \<le> CHR ''9'')"

text \<open>The characters that \<^verbatim>\<open>\s\<close> matches among the ASCII code points.\<close>

definition is_space :: "char \<Rightarrow> bool" where
  "is_space c = (c \<in> set [CHR 0x09, CHR 0x0A, CHR 0x0B, CHR 0x0C, CHR 0x0D,
                           CHR 0x1C, CHR 0x1D, CHR 0x1E, CHR 0x1F, CHR 0x20])"

definition digit_val :: "char \<Rightarrow> int" where
  "digit_val c = int (of_char c) - 48"

text \<open>\<^verbatim>\<open>int(s)\<close> on a non-empty string of decimal digits.\<close>

definition int_of_digits :: "string \<Rightarrow> int" where
  "int_of_digits ds = foldl (\<lambda>acc c. 10 * acc + digit_val c) 0 ds"

definition digit_char :: "nat \<Rightarrow> char" where
  "digit_char n = ''0123456789'' ! n"

fun str_nat :: "nat \<Rightarrow> string" where
  "str_nat n = (if n < 10 then [digit_char n] else str_nat (n div 10) @ [digit_char (n mod 10)])"

declare str_nat.simps [simp del]

text \<open>\<^verbatim>\<open>str(i)\<close> and the format \<^verbatim>\<open>{:d}\<close>.\<close>

definition str_int :: "int \<Rightarrow> string" where
  "str_int i = (if i < 0 then ''-'' @ str_nat (nat (- i)) else str_nat (nat i))"

text \<open>\<^verbatim>\<open>c.upper()\<close> on one ASCII character.\<close>

definition upper :: "char \<Rightarrow> char" where
  "upper c = (if CHR ''a'' \<le> c \<and> c \<le> CHR ''z'' then char_of (of_char c - (32::nat)) else c)"

text \<open>\<^verbatim>\<open>s.replace(a, b)\<close> for single characters \<open>a\<close> and \<open>b\<close>.\<close>

definition replace :: "char \<Rightarrow> char \<Rightarrow> string \<Rightarrow> string" where
  "replace a b s = map (\<lambda>c. if c = a then b else c) s"

text \<open>
  A slice bound \<open>i\<close> of a sequence of length \<open>n\<close>: a negative bound counts from the end, and
  the result is clipped to \<open>0..n\<close>.
\<close>

definition clip :: "nat \<Rightarrow> int \<Rightarrow> nat" where
  "clip n i = (if i < 0 then nat (int n + i) else min n (nat i))"

text \<open>\<^verbatim>\<open>s[a:b]\<close>, and \<^verbatim>\<open>s[:b]\<close>.\<close>

definition slice :: "'a list \<Rightarrow> int \<Rightarrow> int \<Rightarrow> 'a list" where
  "slice s a b = take (clip (length s) b - clip (length s) a) (drop (clip (length s) a) s)"

definition slice_to :: "'a list \<Rightarrow> int \<Rightarrow> 'a list" where
  "slice_to s b = take (clip (length s) b) s"

text \<open>\<^verbatim>\<open>s[i]\<close>, which raises outside \<open>-n..n-1\<close> for a sequence of length \<open>n\<close>.\<close>

definition index :: "'a list \<Rightarrow> int \<Rightarrow> error + 'a" where
  "index s i =
     (if i < - int (length s) \<or> int (length s) \<le> i then Inl IndexError
      else Inr (s ! nat (if i < 0 then int (length s) + i else i)))"

text \<open>\<^verbatim>\<open>sep.join(items)\<close>; an item that is \<^verbatim>\<open>None\<close> raises.\<close>

fun join :: "string \<Rightarrow> string option list \<Rightarrow> error + string" where
  "join sep [] = Inr []"
| "join sep (None # xs) = Inl TypeError"
| "join sep [Some x] = Inr x"
| "join sep (Some x # y # ys) = bind (join sep (y # ys)) (\<lambda>r. Inr (x @ sep @ r))"

section \<open>Sequence records and variants\<close>

text \<open>
  A sequence record exposes \<^verbatim>\<open>.name\<close> and \<^verbatim>\<open>.sequence\<close>; a query record also
  carries the list \<^verbatim>\<open>.ikmers\<close> of its supporting k-mers, of which the code reads the length.
\<close>

record seqrecord =
  name :: string
  sequence :: string
  ikmers :: "string list"

text \<open>
  The class of a variant object, and the object: \<^verbatim>\<open>_seqid\<close>, \<^verbatim>\<open>_pos\<close>,
  \<^verbatim>\<open>_refr\<close>, \<^verbatim>\<open>_alt\<close> and the dictionary \<^verbatim>\<open>info\<close>, kept as an association list
  in insertion order with one entry for each key.
\<close>

datatype vclass = Variant | VariantSNV | VariantIndel

record variant =
  cls :: vclass
  seqid :: string
  pos :: int
  refr :: string
  alt :: string
  info :: "(string \<times> string) list"

text \<open>The constructor: each keyword argument is stored with \<^verbatim>\<open>self.info[key] = value\<close>.\<close>

definition init :: "vclass \<Rightarrow> string \<Rightarrow> int \<Rightarrow> string \<Rightarrow> string \<Rightarrow> (string \<times> string) list \<Rightarrow> variant"
  where
  "init c sid p r a kwargs =
     \<lparr>cls = c, seqid = sid, pos = p, refr = r, alt = a,
      info = foldl (\<lambda>d (key, val). AList.update key val d) [] kwargs\<rparr>"

definition attribute :: "variant \<Rightarrow> string \<Rightarrow> bool \<Rightarrow> string option" where
  "attribute v key pair =
     (case map_of (info v) key of
        None \<Rightarrow> None
      | Some val \<Rightarrow>
          (let val' = replace CHR '';'' CHR '':'' val
           in if pair then Some (key @ ''='' @ val') else Some val'))"

text \<open>
  The loop of \<^verbatim>\<open>vcf\<close> over \<^verbatim>\<open>sorted(self.info)\<close>, which appends the pair of every
  key other than \<^verbatim>\<open>QS\<close>.
\<close>

fun vcf_loop :: "variant \<Rightarrow> string list \<Rightarrow> string option list \<Rightarrow> string option list" where
  "vcf_loop v [] kvpairs = kvpairs"
| "vcf_loop v (key # keys) kvpairs =
     (if key \<noteq> ''QS'' then vcf_loop v keys (kvpairs @ [attribute v key True])
      else vcf_loop v keys kvpairs)"

text \<open>
  \<^verbatim>\<open>vcf\<close>. The condition \<^verbatim>\<open>if queryseq\<close> holds exactly when the attribute is not
  \<^verbatim>\<open>None\<close>, since a pair \<^verbatim>\<open>QS=...\<close> is never the empty string.
\<close>

definition tab :: string where
  "tab = [CHR 0x09]"

definition vcf :: "variant \<Rightarrow> error + string" where
  "vcf v =
     bind
       (if length (info v) > 0 then
          (let kvpairs = vcf_loop v (sort (map fst (info v))) [];
               queryseq = attribute v ''QS'' True;
               kvpairs' = (if queryseq \<noteq> None then kvpairs @ [queryseq] else kvpairs)
           in join '';'' kvpairs')
        else Inr ''.'')
       (\<lambda>attrstr.
          (let filterstr = (if refr v \<noteq> ''.'' then ''PASS'' else ''.'')
           in Inr (seqid v @ tab @ str_int (pos v + 1) @ tab @ ''.'' @ tab @ refr v @ tab @ alt v
                   @ tab @ ''.'' @ tab @ filterstr @ tab @ attrstr)))"

section \<open>Coordinates: \<^verbatim>\<open>local_to_global\<close>\<close>

text \<open>
  \<^verbatim>\<open>(\d+)\<close> at the head of a string: the group and the rest. The run is greedy, and in every
  pattern of this file the item after it is not a digit, so only the longest run can match.
\<close>

definition re_digits :: "string \<Rightarrow> (string \<times> string) option" where
  "re_digits s = (let g = takeWhile is_digit s
                  in if g = [] then None else Some (g, dropWhile is_digit s))"

text \<open>\<^verbatim>\<open>_(\d+)-(\d+)\<close> at the head of a string; the result is group 2 of the whole pattern.\<close>

definition subseqid_tail :: "string \<Rightarrow> string option" where
  "subseqid_tail s =
     (case s of
        [] \<Rightarrow> None
      | c # r \<Rightarrow>
          if c \<noteq> CHR ''_'' then None
          else (case re_digits r of
                  None \<Rightarrow> None
                | Some (g2, r2) \<Rightarrow>
                    (case r2 of
                       [] \<Rightarrow> None
                     | c2 # r3 \<Rightarrow>
                         if c2 \<noteq> CHR ''-'' then None
                         else (case re_digits r3 of None \<Rightarrow> None | Some (g3, r4) \<Rightarrow> Some g2))))"

text \<open>
  A match of \<^verbatim>\<open>(\S+)_(\d+)-(\d+)\<close> at a fixed start, where \<^verbatim>\<open>\S+\<close> has taken \<open>acc\<close>
  and goes on with the next character: the longer run is tried first (greedy), the run that ends
  here after it (backtracking). The result is groups 1 and 2.
\<close>

fun subseqid_at :: "string \<Rightarrow> string \<Rightarrow> (string \<times> string) option" where
  "subseqid_at acc [] = None"
| "subseqid_at acc (c # r) =
     (if is_space c then None
      else (case subseqid_at (acc @ [c]) r of
              Some m \<Rightarrow> Some m
            | None \<Rightarrow> (case subseqid_tail r of Some g2 \<Rightarrow> Some (acc @ [c], g2) | None \<Rightarrow> None)))"

text \<open>\<^verbatim>\<open>re.search\<close>: the leftmost start that has a match.\<close>

fun subseqid_search :: "string \<Rightarrow> (string \<times> string) option" where
  "subseqid_search [] = None"
| "subseqid_search (c # r) =
     (case subseqid_at [] (c # r) of Some m \<Rightarrow> Some m | None \<Rightarrow> subseqid_search r)"

definition local_to_global :: "int \<Rightarrow> string \<Rightarrow> error + (string \<times> int)" where
  "local_to_global localcoord subseqid =
     (case subseqid_search subseqid of
        None \<Rightarrow> Inl AssertionError
      | Some (g1, g2) \<Rightarrow>
          (let globaloffset = int_of_digits g2;
               globalcoord = globaloffset + localcoord
           in Inr (g1, globalcoord)))"

section \<open>Single-nucleotide variants: \<^verbatim>\<open>call_snv\<close>\<close>

text \<open>
  The comprehension \<^verbatim>\<open>[(i, t[i], q[i]) for i in range(length) if t[i] != q[i]]\<close>, over
  the indices still to visit.
\<close>

fun diffs_loop :: "string \<Rightarrow> string \<Rightarrow> nat list \<Rightarrow> error + (int \<times> char \<times> char) list" where
  "diffs_loop t q [] = Inr []"
| "diffs_loop t q (i # rest) =
     bind (index t (int i)) (\<lambda>ti.
     bind (index q (int i)) (\<lambda>qi.
     bind (diffs_loop t q rest) (\<lambda>ds.
       Inr (if ti \<noteq> qi then (int i, ti, qi) # ds else ds))))"

text \<open>The loop over \<^verbatim>\<open>diffs\<close>, which appends one \<^verbatim>\<open>VariantSNV\<close> to \<^verbatim>\<open>snvs\<close>.\<close>

fun snv_loop :: "seqrecord \<Rightarrow> seqrecord \<Rightarrow> int \<Rightarrow> int \<Rightarrow> int \<Rightarrow> bool \<Rightarrow> string \<Rightarrow> string
    \<Rightarrow> (int \<times> char \<times> char) list \<Rightarrow> variant list \<Rightarrow> error + variant list" where
  "snv_loop target query offset len ksize targetshort t q [] snvs = Inr snvs"
| "snv_loop target query offset len ksize targetshort t q (diff # rest) snvs =
     (let minpos = max (fst diff - ksize + 1) 0;
          maxpos = min (fst diff + ksize) len;
          window = slice q minpos maxpos;
          refrwindow = slice t minpos maxpos;
          refr' = [upper (fst (snd diff))];
          alt' = [upper (snd (snd diff))];
          localcoord = (if \<not> targetshort then fst diff + offset else fst diff)
      in bind (local_to_global localcoord (name target)) (\<lambda>(seqid', globalcoord).
           snv_loop target query offset len ksize targetshort t q rest
             (snvs @ [init VariantSNV seqid' globalcoord refr' alt'
                        [(''VW'', window), (''RW'', refrwindow),
                         (''IK'', str_int (int (length (ikmers query))))]])))"

definition call_snv :: "seqrecord \<Rightarrow> seqrecord \<Rightarrow> int \<Rightarrow> int \<Rightarrow> int \<Rightarrow> error + variant list" where
  "call_snv target query offset len ksize =
     (let (offset', gdnaoffset, targetshort, t, q) =
            (if offset < 0 then
               (let offset' = offset * - 1
                in (offset', 0, True, slice_to (sequence target) len,
                    slice (sequence query) offset' (offset' + len)))
             else
               (offset, offset, False, slice (sequence target) offset (offset + len),
                slice_to (sequence query) len))
      in bind (diffs_loop t q [0..<nat len]) (\<lambda>diffs.
           if length diffs = 0 then
             bind (local_to_global gdnaoffset (name target)) (\<lambda>(seqid', globalcoord).
               Inr [init Variant seqid' globalcoord ''.'' ''.''
                      [(''NC'', ''perfectmatch''), (''QN'', name query), (''QS'', q)]])
           else snv_loop target query offset' len ksize targetshort t q diffs []))"

section \<open>Indels: allele construction and calling\<close>

definition deletion_allele ::
  "seqrecord \<Rightarrow> seqrecord \<Rightarrow> int \<Rightarrow> int \<Rightarrow> int \<Rightarrow> int \<Rightarrow> error + (string \<times> string \<times> string \<times> string)"
  where
  "deletion_allele target query offset ksize leftmatch indellength =
     (let minpos = leftmatch - ksize + 1;
          maxpos = leftmatch + ksize - 1;
          altwindow = slice (sequence query) minpos maxpos;
          minpos' = minpos + offset;
          maxpos' = maxpos + (offset + indellength);
          refrwindow = slice (sequence target) minpos' maxpos';
          refr' = slice (sequence target) (offset + leftmatch - 1) (offset + leftmatch + indellength)
      in bind (index refr' 0) (\<lambda>c. Inr (refr', [c], refrwindow, altwindow)))"

definition insertion_allele ::
  "seqrecord \<Rightarrow> seqrecord \<Rightarrow> int \<Rightarrow> int \<Rightarrow> int \<Rightarrow> int \<Rightarrow> error + (string \<times> string \<times> string \<times> string)"
  where
  "insertion_allele target query offset ksize leftmatch indellength =
     (let minpos = leftmatch - ksize + 1;
          maxpos = leftmatch + ksize + indellength - 1;
          altwindow = slice (sequence query) minpos maxpos;
          minpos' = minpos + offset;
          maxpos' = maxpos + (offset - indellength);
          refrwindow = slice (sequence target) minpos' maxpos';
          alt' = slice (sequence query) (leftmatch - 1) (leftmatch + indellength)
      in bind (index alt' 0) (\<lambda>c. Inr ([c], alt', refrwindow, altwindow)))"

text \<open>
  In \<^verbatim>\<open>call_deletion\<close> the check of the length of \<^verbatim>\<open>refr\<close> is commented out in the
  source, so the model has none.
\<close>

definition call_deletion ::
  "seqrecord \<Rightarrow> seqrecord \<Rightarrow> int \<Rightarrow> int \<Rightarrow> int \<Rightarrow> int \<Rightarrow> error + variant list" where
  "call_deletion target query offset ksize leftmatch indellength =
     bind
       (if offset < 0 then
          (let offset' = offset * - 1
           in bind (insertion_allele query target offset' ksize leftmatch indellength)
                (\<lambda>(alt', refr', altwindow, refrwindow).
                   Inr (offset', True, refr', alt', refrwindow, altwindow)))
        else
          bind (deletion_allele target query offset ksize leftmatch indellength)
            (\<lambda>(refr', alt', refrwindow, altwindow).
               Inr (offset, False, refr', alt', refrwindow, altwindow)))
       (\<lambda>(offset', targetshort, refr', alt', refrwindow, altwindow).
          (let localcoord = (if \<not> targetshort then leftmatch + offset' else leftmatch)
           in bind (local_to_global localcoord (name target)) (\<lambda>(seqid', globalcoord).
                Inr [init VariantIndel seqid' (globalcoord - 1) refr' alt'
                       [(''VW'', altwindow), (''RW'', refrwindow),
                        (''IK'', str_int (int (length (ikmers query))))]])))"

definition call_insertion ::
  "seqrecord \<Rightarrow> seqrecord \<Rightarrow> int \<Rightarrow> int \<Rightarrow> int \<Rightarrow> int \<Rightarrow> error + variant list" where
  "call_insertion target query offset ksize leftmatch indellength =
     bind
       (if offset < 0 then
          (let offset' = offset * - 1
           in bind (deletion_allele query target offset' ksize leftmatch indellength)
                (\<lambda>(alt', refr', altwindow, refrwindow).
                   Inr (offset', True, refr', alt', refrwindow, altwindow)))
        else
          bind (insertion_allele target query offset ksize leftmatch indellength)
            (\<lambda>(refr', alt', refrwindow, altwindow).
               Inr (offset, False, refr', alt', refrwindow, altwindow)))
       (\<lambda>(offset', targetshort, refr', alt', refrwindow, altwindow).
          if int (length alt') \<noteq> indellength + 1 then Inl AssertionError
          else
            (let localcoord = (if \<not> targetshort then leftmatch + offset' else leftmatch)
             in bind (local_to_global localcoord (name target)) (\<lambda>(seqid', globalcoord).
                  Inr [init VariantIndel seqid' (globalcoord - 1) refr' alt'
                         [(''VW'', altwindow), (''RW'', refrwindow),
                          (''IK'', str_int (int (length (ikmers query))))]])))"

section \<open>Operation strings: \<^verbatim>\<open>make_call\<close>\<close>

text \<open>
  The four patterns of \<^verbatim>\<open>make_call\<close> are anchored at both ends and are sequences of three
  kinds of item: a captured run of digits \<^verbatim>\<open>(\d+)\<close>, a captured character of a class such as
  \<^verbatim>\<open>([DI])\<close>, and a character of a class that is not captured (\<^verbatim>\<open>M\<close>,
  \<^verbatim>\<open>[DI]\<close>). Each run of digits is followed by an item that is not a digit, so matching
  needs no backtracking. \<open>re_items\<close> matches the items at the head of a string and gives the
  captured groups in order, and the rest of the string.
\<close>

datatype re_item = Digits | Capture string | Skip string

definition re_class :: "string \<Rightarrow> string \<Rightarrow> (char \<times> string) option" where
  "re_class cs s = (case s of [] \<Rightarrow> None | c # r \<Rightarrow> if c \<in> set cs then Some (c, r) else None)"

fun re_items :: "re_item list \<Rightarrow> string \<Rightarrow> (string list \<times> string) option" where
  "re_items [] s = Some ([], s)"
| "re_items (Digits # items) s =
     (case re_digits s of
        None \<Rightarrow> None
      | Some (g, r) \<Rightarrow>
          (case re_items items r of None \<Rightarrow> None | Some (gs, r') \<Rightarrow> Some (g # gs, r')))"
| "re_items (Capture cs # items) s =
     (case re_class cs s of
        None \<Rightarrow> None
      | Some (c, r) \<Rightarrow>
          (case re_items items r of None \<Rightarrow> None | Some (gs, r') \<Rightarrow> Some ([c] # gs, r')))"
| "re_items (Skip cs # items) s =
     (case re_class cs s of None \<Rightarrow> None | Some (c, r) \<Rightarrow> re_items items r)"

text \<open>
  \<^verbatim>\<open>re.search\<close> with a pattern \<^verbatim>\<open>^...$\<close>: the dollar matches at the end of the
  string and before a newline that ends the string.
\<close>

definition re_search :: "re_item list \<Rightarrow> string \<Rightarrow> string list option" where
  "re_search items s =
     (case re_items items s of
        None \<Rightarrow> None
      | Some (gs, r) \<Rightarrow> if r = [] \<or> r = [CHR 0x0A] then Some gs else None)"

text \<open>\<^verbatim>\<open>match.group(n)\<close>; every use below has \<open>n\<close> among the groups of its pattern.\<close>

definition group :: "string list \<Rightarrow> nat \<Rightarrow> string" where
  "group gs n = gs ! (n - 1)"

text \<open>
  \<^verbatim>\<open>^(\d+)([DI])(\d+)M(\d+)[DI]$\<close>, the same with \<^verbatim>\<open>(\d+)M\<close> before the dollar,
  \<^verbatim>\<open>^(\d+)([DI])(\d+)M(\d+)([ID])(\d+)M(\d+)[DI]$\<close>, and the same with
  \<^verbatim>\<open>(\d+)M\<close> before the dollar.
\<close>

definition snv_pattern :: "re_item list" where
  "snv_pattern = [Digits, Capture ''DI'', Digits, Skip ''M'', Digits, Skip ''DI'']"

definition snv_pattern2 :: "re_item list" where
  "snv_pattern2 = [Digits, Capture ''DI'', Digits, Skip ''M'', Digits, Skip ''DI'', Digits, Skip ''M'']"

definition indel_pattern :: "re_item list" where
  "indel_pattern = [Digits, Capture ''DI'', Digits, Skip ''M'', Digits, Capture ''ID'', Digits,
                    Skip ''M'', Digits, Skip ''DI'']"

definition indel_pattern2 :: "re_item list" where
  "indel_pattern2 = [Digits, Capture ''DI'', Digits, Skip ''M'', Digits, Capture ''ID'', Digits,
                     Skip ''M'', Digits, Skip ''DI'', Digits, Skip ''M'']"

text \<open>The branch that both SNV shapes share, and the branch that both indel shapes share.\<close>

definition snv_branch :: "seqrecord \<Rightarrow> seqrecord \<Rightarrow> string list \<Rightarrow> int \<Rightarrow> error + variant list" where
  "snv_branch target query m ksize =
     (let offset = int_of_digits (group m 1);
          offset' = (if group m 2 = ''I'' then offset * - 1 else offset);
          len = int_of_digits (group m 3)
      in call_snv target query offset' len ksize)"

definition indel_branch :: "seqrecord \<Rightarrow> seqrecord \<Rightarrow> string list \<Rightarrow> int \<Rightarrow> error + variant list" where
  "indel_branch target query m ksize =
     (let offset = int_of_digits (group m 1);
          offset' = (if group m 2 = ''I'' then offset * - 1 else offset);
          leftmatch = int_of_digits (group m 3);
          indellength = int_of_digits (group m 4);
          indeltype = group m 5;
          callfunc = (if indeltype = ''D'' then call_deletion else call_insertion)
      in callfunc target query offset' ksize leftmatch indellength)"

definition make_call :: "seqrecord \<Rightarrow> seqrecord \<Rightarrow> string \<Rightarrow> int \<Rightarrow> error + variant list" where
  "make_call target query cigar ksize =
     (let snvmatch = re_search snv_pattern cigar;
          snvmatch2 = re_search snv_pattern2 cigar
      in case snvmatch of
           Some m \<Rightarrow> snv_branch target query m ksize
         | None \<Rightarrow>
             (case (case snvmatch2 of
                      None \<Rightarrow> None
                    | Some m2 \<Rightarrow> if int_of_digits (group m2 5) \<le> 5 then Some m2 else None) of
                Some m \<Rightarrow> snv_branch target query m ksize
              | None \<Rightarrow>
                  (let indelmatch = re_search indel_pattern cigar;
                       indelmatch2 = re_search indel_pattern2 cigar
                   in case indelmatch of
                        Some m \<Rightarrow> indel_branch target query m ksize
                      | None \<Rightarrow>
                          (case (case indelmatch2 of
                                   None \<Rightarrow> None
                                 | Some m2 \<Rightarrow>
                                     if int_of_digits (group m2 8) \<le> 5 then Some m2 else None) of
                             Some m \<Rightarrow> indel_branch target query m ksize
                           | None \<Rightarrow>
                               bind (local_to_global 0 (name target)) (\<lambda>(seqid', globalcoord).
                                 Inr [init Variant seqid' globalcoord ''.'' ''.''
                                        [(''NC'', ''inscrutablecigar''), (''QN'', name query),
                                         (''QS'', sequence query), (''CG'', cigar)]])))))"

section \<open>Mate distance and the selection of alignments: \<^verbatim>\<open>call\<close>\<close>


text \<open>\<^verbatim>\<open>s.split()\<close>: the maximal runs of characters that are not whitespace.\<close>

fun split :: "string \<Rightarrow> string \<Rightarrow> string list" where
  "split cur [] = (if cur = [] then [] else [cur])"
| "split cur (c # r) =
     (if is_space c then (if cur = [] then split [] r else cur # split [] r)
      else split (cur @ [c]) r)"















section \<open>Definitions that follow the specification\<close>

text \<open>
  The serialization as the specification words it: the entries of the attribute map in the order
  of their keys with \<^verbatim>\<open>QS\<close> moved to the end, each written \<^verbatim>\<open>KEY=VALUE\<close> with
  every semicolon of the value turned into a colon, and the pairs joined by semicolons.
\<close>

fun intercalate :: "string \<Rightarrow> string list \<Rightarrow> string" where
  "intercalate sep [] = []"
| "intercalate sep [x] = x"
| "intercalate sep (x # y # ys) = x @ sep @ intercalate sep (y # ys)"

definition kvpair :: "string \<times> string \<Rightarrow> string" where
  "kvpair kv = fst kv @ ''='' @ replace CHR '';'' CHR '':'' (snd kv)"

definition vcf_order :: "(string \<times> string) list \<Rightarrow> (string \<times> string) list" where
  "vcf_order d = sort_key fst (filter (\<lambda>kv. fst kv \<noteq> ''QS'') d) @ filter (\<lambda>kv. fst kv = ''QS'') d"

text \<open>
  The naming convention of a subsequence, as the specification words it: a string
  \<^verbatim>\<open><seqid>_<start>-<end>\<close> whose seqid is not empty and has no whitespace and whose start
  and end are decimal numerals. \<open>parse_subseqid\<close> decides it, reading the string from its end.
\<close>

definition digits :: "string \<Rightarrow> bool" where
  "digits ds = (ds \<noteq> [] \<and> list_all is_digit ds)"

definition subseqid_form :: "string \<Rightarrow> string \<Rightarrow> string \<Rightarrow> string \<Rightarrow> bool" where
  "subseqid_form s sid start end' =
     (s = sid @ ''_'' @ start @ ''-'' @ end' \<and> sid \<noteq> [] \<and> list_all (\<lambda>c. \<not> is_space c) sid
      \<and> digits start \<and> digits end')"

definition parse_subseqid :: "string \<Rightarrow> (string \<times> string \<times> string) option" where
  "parse_subseqid s =
     (let r = rev s;
          en = takeWhile is_digit r;
          r1 = dropWhile is_digit r
      in case r1 of
           [] \<Rightarrow> None
         | c1 # r2 \<Rightarrow>
             (let st = takeWhile is_digit r2;
                  r3 = dropWhile is_digit r2
              in case r3 of
                   [] \<Rightarrow> None
                 | c2 # r4 \<Rightarrow>
                     if c1 = CHR ''-'' \<and> c2 = CHR ''_'' \<and> en \<noteq> [] \<and> st \<noteq> [] \<and> r4 \<noteq> []
                        \<and> list_all (\<lambda>c. \<not> is_space c) r4
                     then Some (rev r4, rev st, rev en) else None))"

text \<open>Some part of the string has that form, with anything before and after it.\<close>

definition subseqid_inside :: "string \<Rightarrow> bool" where
  "subseqid_inside s = (\<exists>pre sid st en post. s = pre @ sid @ ''_'' @ st @ ''-'' @ en @ post
      \<and> sid \<noteq> [] \<and> list_all (\<lambda>c. \<not> is_space c) sid \<and> digits st \<and> digits en)"

text \<open>
  The record of a single-nucleotide variant at the index \<open>i\<close> of the compared windows \<open>t\<close>
  (reference) and \<open>q\<close> (query), as the specification describes it: the alleles are the two
  characters in upper case, the windows are the slices from \<open>max (i - k + 1) 0\<close> to
  \<open>min (i + k) len\<close>, and the position is \<open>i\<close>, shifted, in the frame that starts at
  \<open>start\<close>.
\<close>

definition snv_record ::
  "seqrecord \<Rightarrow> string \<Rightarrow> int \<Rightarrow> int \<Rightarrow> int \<Rightarrow> int \<Rightarrow> string \<Rightarrow> string \<Rightarrow> nat \<Rightarrow> variant" where
  "snv_record query sid start shift len ksize t q i =
     \<lparr>cls = VariantSNV, seqid = sid, pos = start + (int i + shift),
      refr = [upper (t ! i)], alt = [upper (q ! i)],
      info = [(''VW'', slice q (max (int i - ksize + 1) 0) (min (int i + ksize) len)),
              (''RW'', slice t (max (int i - ksize + 1) 0) (min (int i + ksize) len)),
              (''IK'', str_int (int (length (ikmers query))))]\<rparr>"

text \<open>
  A target and two contigs for the examples: the first contig differs from the bases 3 to 12 of
  the target at its index 5, the second is equal to them.
\<close>

definition ex_target :: seqrecord where
  "ex_target = \<lparr>name = ''chr1_100-113'', sequence = ''AAAGCATGCATAA'', ikmers = []\<rparr>"

definition ex_query :: seqrecord where
  "ex_query = \<lparr>name = ''contig1'', sequence = ''GCATGgATAA'', ikmers = [''GCATG'', ''CATGg'']\<rparr>"

definition ex_query_same :: seqrecord where
  "ex_query_same = \<lparr>name = ''contig2'', sequence = ''GCATGCATAA'', ikmers = [''GCATG'']\<rparr>"

text \<open>
  The operation strings that \<^verbatim>\<open>make_call\<close> interprets: the conditions of its four branches,
  which are the four recognized shapes, a trailing match being of at most 5 bases.
\<close>

definition recognized :: "string \<Rightarrow> bool" where
  "recognized cigar =
     (re_search snv_pattern cigar \<noteq> None
      \<or> (case re_search snv_pattern2 cigar of
            None \<Rightarrow> False | Some m \<Rightarrow> int_of_digits (group m 5) \<le> 5)
      \<or> re_search indel_pattern cigar \<noteq> None
      \<or> (case re_search indel_pattern2 cigar of
            None \<Rightarrow> False | Some m \<Rightarrow> int_of_digits (group m 8) \<le> 5))"

text \<open>
  The two plain shapes as the specification writes them, \<^verbatim>\<open><n1><D|I><n2>M<n3><D|I>\<close> and
  \<^verbatim>\<open><n1><D|I><n2>M<n3><D|I><n4>M<n5><D|I>\<close>, from their numerals and operation characters.
\<close>

definition opchar :: "char \<Rightarrow> bool" where
  "opchar c = (c = CHR ''D'' \<or> c = CHR ''I'')"

definition snv_shape :: "string \<Rightarrow> char \<Rightarrow> string \<Rightarrow> string \<Rightarrow> char \<Rightarrow> string" where
  "snv_shape n1 o1 n2 n3 o3 = n1 @ [o1] @ n2 @ ''M'' @ n3 @ [o3]"

definition indel_shape ::
  "string \<Rightarrow> char \<Rightarrow> string \<Rightarrow> string \<Rightarrow> char \<Rightarrow> string \<Rightarrow> string \<Rightarrow> char \<Rightarrow> string" where
  "indel_shape n1 o1 n2 n3 o3 n4 n5 o5 =
     n1 @ [o1] @ n2 @ ''M'' @ n3 @ [o3] @ n4 @ ''M'' @ n5 @ [o5]"

text \<open>A contig that lacks two bases of the target, for the examples.\<close>

definition ex_query_del :: seqrecord where
  "ex_query_del = \<lparr>name = ''contig3'', sequence = ''GCATATAA'', ikmers = [''ATA'']\<rparr>"

text \<open>
  The allele that spans a deletion, taken from the target one base before the indel, and the
  allele that spans an insertion, taken from the query; when the offset is negative the target
  is the short sequence and the query is read at the negated offset.
\<close>

definition deleted_allele :: "seqrecord \<Rightarrow> int \<Rightarrow> int \<Rightarrow> int \<Rightarrow> string" where
  "deleted_allele target offset leftmatch indellength =
     (if offset < 0 then slice (sequence target) (leftmatch - 1) (leftmatch + indellength)
      else slice (sequence target) (offset + leftmatch - 1) (offset + leftmatch + indellength))"

definition inserted_allele :: "seqrecord \<Rightarrow> int \<Rightarrow> int \<Rightarrow> int \<Rightarrow> string" where
  "inserted_allele query offset leftmatch indellength =
     (if offset < 0
      then slice (sequence query) (- offset + leftmatch - 1) (- offset + leftmatch + indellength)
      else slice (sequence query) (leftmatch - 1) (leftmatch + indellength))"

text \<open>The variant window and the reference window of a deletion and of an insertion.\<close>

definition deletion_windows ::
  "seqrecord \<Rightarrow> seqrecord \<Rightarrow> int \<Rightarrow> int \<Rightarrow> int \<Rightarrow> int \<Rightarrow> string \<times> string" where
  "deletion_windows target query offset ksize leftmatch indellength =
     (if offset < 0 then
        (slice (sequence query) (leftmatch - ksize + 1 - offset) (leftmatch + ksize - 1 - offset),
         slice (sequence target) (leftmatch - ksize + 1) (leftmatch + ksize + indellength - 1))
      else
        (slice (sequence query) (leftmatch - ksize + 1) (leftmatch + ksize - 1),
         slice (sequence target) (leftmatch - ksize + 1 + offset)
           (leftmatch + ksize - 1 + offset + indellength)))"

definition insertion_windows ::
  "seqrecord \<Rightarrow> seqrecord \<Rightarrow> int \<Rightarrow> int \<Rightarrow> int \<Rightarrow> int \<Rightarrow> string \<times> string" where
  "insertion_windows target query offset ksize leftmatch indellength =
     (if offset < 0 then
        (slice (sequence query) (leftmatch - ksize + 1 - offset)
           (leftmatch + ksize - 1 - offset + indellength),
         slice (sequence target) (leftmatch - ksize + 1) (leftmatch + ksize - 1))
      else
        (slice (sequence query) (leftmatch - ksize + 1) (leftmatch + ksize + indellength - 1),
         slice (sequence target) (leftmatch - ksize + 1 + offset) (leftmatch + ksize - 1 + offset)))"

text \<open>
  The record of an indel whose mapped coordinate is \<open>g\<close>: it is stored one base before, with
  the two windows and the number of supporting k-mers of the query.
\<close>

definition indel_record ::
  "seqrecord \<Rightarrow> string \<Rightarrow> int \<Rightarrow> string \<Rightarrow> string \<Rightarrow> string \<times> string \<Rightarrow> variant" where
  "indel_record query sid g r a windows =
     \<lparr>cls = VariantIndel, seqid = sid, pos = g - 1, refr = r, alt = a,
      info = [(''VW'', fst windows), (''RW'', snd windows),
              (''IK'', str_int (int (length (ikmers query))))]\<rparr>"

text \<open>A target that lacks two bases of a contig, for the examples.\<close>

definition ex_target_del :: seqrecord where
  "ex_target_del = \<lparr>name = ''chr1_100-108'', sequence = ''GCATATAA'', ikmers = []\<rparr>"

definition ex_query_ins :: seqrecord where
  "ex_query_ins = \<lparr>name = ''contig4'', sequence = ''GCATGCATAA'', ikmers = []\<rparr>"







section \<open>Serialization to VCF\<close>

lemma join_Some: "join sep (map Some xs) = Inr (intercalate sep xs)"
  by (induction sep xs rule: intercalate.induct) (simp_all add: bind_def)

lemma distinct_init_aux:
  "distinct (map fst d) \<Longrightarrow> distinct (map fst (foldl (\<lambda>d (key, val). AList.update key val d) d kwargs))"
  by (induction kwargs arbitrary: d) (auto simp: distinct_update)

lemma distinct_init: "distinct (map fst (info (init c sid p r a kwargs)))"
  by (simp add: init_def distinct_init_aux)

lemma vcf_loop_eq:
  "vcf_loop v keys acc = acc @ map (\<lambda>k. attribute v k True) (filter (\<lambda>k. k \<noteq> ''QS'') keys)"
  by (induction keys arbitrary: acc) auto

lemma insort_map: "insort (f x) (map f xs) = map f (insort_key f x xs)"
  by (induction xs) auto

lemma sort_map: "sort (map f xs) = map f (sort_key f xs)"
  by (induction xs) (auto simp: insort_map)

lemma attribute_pair:
  "distinct (map fst (info v)) \<Longrightarrow> kv \<in> set (info v) \<Longrightarrow> attribute v (fst kv) True = Some (kvpair kv)"
  by (cases kv) (simp add: attribute_def kvpair_def)

lemma attribute_None: "attribute v k b = None \<longleftrightarrow> k \<notin> fst ` set (info v)"
  by (simp add: attribute_def Let_def map_of_eq_None_iff[symmetric] split: option.splits)

lemma filter_key_distinct:
  "distinct (map fst d) \<Longrightarrow> (k, x) \<in> set d \<Longrightarrow> filter (\<lambda>kv. fst kv = k) d = [(k, x)]"
proof (induction d)
  case Nil
  then show ?case by simp
next
  case (Cons e d)
  show ?case
  proof (cases "e = (k, x)")
    case True
    with Cons.prems have "\<forall>kv\<in>set d. fst kv \<noteq> k" by force
    then have "filter (\<lambda>kv. fst kv = k) d = []" by (simp add: filter_empty_conv)
    with True show ?thesis by simp
  next
    case False
    with Cons.prems have in_d: "(k, x) \<in> set d" by simp
    then have "k \<in> fst ` set d" by force
    with Cons.prems have "fst e \<noteq> k" by auto
    with Cons in_d show ?thesis by simp
  qed
qed

lemma filter_key_absent: "k \<notin> fst ` set d \<Longrightarrow> filter (\<lambda>kv. fst kv = k) d = []"
  by (auto simp: filter_empty_conv)

lemma vcf_kvpairs:
  assumes "distinct (map fst (info v))"
  shows "(let kvpairs = vcf_loop v (sort (map fst (info v))) [];
               queryseq = attribute v ''QS'' True
           in (if queryseq \<noteq> None then kvpairs @ [queryseq] else kvpairs))
         = map (Some \<circ> kvpair) (vcf_order (info v))"
proof -
  let ?d = "info v"
  let ?nq = "filter (\<lambda>kv. fst kv \<noteq> ''QS'') ?d"
  have "filter (\<lambda>k. k \<noteq> ''QS'') (sort (map fst ?d)) = map fst (sort_key fst ?nq)"
    by (simp add: sort_map filter_map comp_def filter_sort)
  then have 1: "vcf_loop v (sort (map fst ?d)) [] = map (\<lambda>kv. attribute v (fst kv) True) (sort_key fst ?nq)"
    by (simp add: vcf_loop_eq comp_def)
  have 2: "map (\<lambda>kv. attribute v (fst kv) True) (sort_key fst ?nq) = map (Some \<circ> kvpair) (sort_key fst ?nq)"
    using assms by (auto simp: attribute_pair)
  show ?thesis
  proof (cases "attribute v ''QS'' True")
    case None
    then have "''QS'' \<notin> fst ` set ?d" by (simp add: attribute_None)
    then have "filter (\<lambda>kv. fst kv = ''QS'') ?d = []" by (rule filter_key_absent)
    with None 1 2 show ?thesis by (simp add: vcf_order_def)
  next
    case (Some s)
    then have "''QS'' \<in> fst ` set ?d" using attribute_None[of v "''QS''" True] by auto
    then obtain x where x: "(''QS'', x) \<in> set ?d" by force
    with assms have f: "filter (\<lambda>kv. fst kv = ''QS'') ?d = [(''QS'', x)]" by (rule filter_key_distinct)
    from x assms have "attribute v ''QS'' True = Some (kvpair (''QS'', x))"
      using attribute_pair[of v "(''QS'', x)"] by simp
    with 1 2 f show ?thesis by (simp add: vcf_order_def)
  qed
qed

lemma vcf_attrstr:
  assumes "distinct (map fst (info v))"
  shows "(let kvpairs = vcf_loop v (sort (map fst (info v))) [];
               queryseq = attribute v ''QS'' True;
               kvpairs' = (if queryseq \<noteq> None then kvpairs @ [queryseq] else kvpairs)
           in join '';'' kvpairs')
         = Inr (intercalate '';'' (map kvpair (vcf_order (info v))))"
proof -
  have "join '';'' (map (Some \<circ> kvpair) (vcf_order (info v)))
        = Inr (intercalate '';'' (map kvpair (vcf_order (info v))))"
    using join_Some[of "'';''" "map kvpair (vcf_order (info v))"] by (simp add: comp_def)
  then show ?thesis
    using vcf_kvpairs[OF assms] unfolding Let_def by simp
qed

lemma mset_vcf_order: "mset (vcf_order d) = mset d"
  by (simp add: vcf_order_def)

lemma sorted_vcf_order: "sorted (map fst (filter (\<lambda>kv. fst kv \<noteq> ''QS'') (vcf_order d)))"
  by (simp add: vcf_order_def filter_sort)

lemma last_vcf_order: "''QS'' \<in> fst ` set d \<Longrightarrow> fst (last (vcf_order d)) = ''QS''"
proof -
  assume "''QS'' \<in> fst ` set d"
  then have ne: "filter (\<lambda>kv. fst kv = ''QS'') d \<noteq> []" by (force simp: filter_empty_conv)
  then have "last (vcf_order d) = last (filter (\<lambda>kv. fst kv = ''QS'') d)" by (simp add: vcf_order_def)
  moreover have "last (filter (\<lambda>kv. fst kv = ''QS'') d) \<in> set (filter (\<lambda>kv. fst kv = ''QS'') d)"
    using ne by (rule last_in_set)
  ultimately show ?thesis by simp
qed

text \<open>
  Claim C3. A variant constructed with the 0-based position \<open>p\<close> serializes to the
  tab-separated fields seqid, \<open>p + 1\<close>, a dot, refr, alt, a dot, the filter and the info field.
  The filter is \<^verbatim>\<open>PASS\<close> exactly when refr is not a dot. The info field is a dot when the
  attribute map is empty; otherwise it is the semicolon-joined \<^verbatim>\<open>KEY=VALUE\<close> pairs of all
  entries of the map, each once, where the keys other than \<^verbatim>\<open>QS\<close> are in ascending order,
  \<^verbatim>\<open>QS\<close> is last when it is present, and every semicolon in a value is written as a colon.
  Serialization never raises.
\<close>

theorem vcf_serialization:
  fixes c sid p r a kwargs
  defines "v \<equiv> init c sid p r a kwargs"
  shows "vcf v = Inr (sid @ tab @ str_int (p + 1) @ tab @ ''.'' @ tab @ r @ tab @ a @ tab @ ''.''
                      @ tab @ (if r \<noteq> ''.'' then ''PASS'' else ''.'') @ tab
                      @ (if info v = [] then ''.''
                         else intercalate '';'' (map kvpair (vcf_order (info v)))))
       \<and> mset (vcf_order (info v)) = mset (info v)
       \<and> sorted (map fst (filter (\<lambda>kv. fst kv \<noteq> ''QS'') (vcf_order (info v))))
       \<and> (''QS'' \<in> fst ` set (info v) \<longrightarrow> fst (last (vcf_order (info v))) = ''QS'')"
proof -
  have d: "distinct (map fst (info v))" unfolding v_def by (rule distinct_init)
  have f: "seqid v = sid" "pos v = p" "refr v = r" "alt v = a" by (simp_all add: v_def init_def)
  have "vcf v = Inr (sid @ tab @ str_int (p + 1) @ tab @ ''.'' @ tab @ r @ tab @ a @ tab @ ''.''
                      @ tab @ (if r \<noteq> ''.'' then ''PASS'' else ''.'') @ tab
                      @ (if info v = [] then ''.''
                         else intercalate '';'' (map kvpair (vcf_order (info v)))))"
  proof (cases "info v = []")
    case True
    then show ?thesis by (simp add: vcf_def bind_def f)
  next
    case False
    then show ?thesis
      unfolding vcf_def by (subst vcf_attrstr[OF d]) (simp add: bind_def f)
  qed
  then show ?thesis
    using mset_vcf_order sorted_vcf_order last_vcf_order by blast
qed

theorem vcf_serialization_witness:
  "vcf (init VariantSNV ''chr1'' 1049 ''A'' ''G'' [(''VW'', ''AC;GT''), (''QS'', ''ACGT''), (''IK'', ''3'')])
     = Inr (''chr1'' @ tab @ ''1050'' @ tab @ ''.'' @ tab @ ''A'' @ tab @ ''G'' @ tab @ ''.'' @ tab
            @ ''PASS'' @ tab @ ''IK=3;VW=AC:GT;QS=ACGT'')
   \<and> ''QS'' \<in> fst ` set (info (init VariantSNV ''chr1'' 1049 ''A'' ''G''
                                  [(''VW'', ''AC;GT''), (''QS'', ''ACGT''), (''IK'', ''3'')]))
   \<and> fst (last (vcf_order (info (init VariantSNV ''chr1'' 1049 ''A'' ''G''
                                  [(''VW'', ''AC;GT''), (''QS'', ''ACGT''), (''IK'', ''3'')])))) = ''QS''"
  using vcf_serialization [of VariantSNV "''chr1''" 1049 "''A''" "''G''"
      "[(''VW'', ''AC;GT''), (''QS'', ''ACGT''), (''IK'', ''3'')]"]
  by (simp add: init_def vcf_order_def kvpair_def replace_def str_int_def str_nat.simps digit_char_def)

section \<open>The coordinate mapper\<close>

lemma not_digit_sep [simp]: "\<not> is_digit CHR ''_''" "\<not> is_digit CHR ''-''"
  by (simp_all add: is_digit_def)

lemma re_digits_append:
  "digits ds \<Longrightarrow> \<not> is_digit c \<Longrightarrow> re_digits (ds @ c # r) = Some (ds, c # r)"
  by (simp add: re_digits_def digits_def list_all_iff takeWhile_tail dropWhile_append3)

lemma re_digits_all: "digits ds \<Longrightarrow> re_digits ds = Some (ds, [])"
proof -
  assume d: "digits ds"
  then have t: "takeWhile is_digit ds = ds" "dropWhile is_digit ds = []"
    by (simp_all add: digits_def list_all_iff)
  from d have "ds \<noteq> []" by (simp add: digits_def)
  then show ?thesis unfolding re_digits_def Let_def t by simp
qed

lemma re_digits_prefix: "digits ds \<Longrightarrow> re_digits (ds @ r) \<noteq> None"
  by (cases ds) (simp_all add: re_digits_def digits_def)

lemma re_digits_SomeD:
  "re_digits s = Some (g, r) \<Longrightarrow> s = g @ r \<and> digits g \<and> (r = [] \<or> \<not> is_digit (hd r))"
  by (auto simp: re_digits_def digits_def Let_def list_all_iff split: if_splits
           dest: set_takeWhileD hd_dropWhile)

lemma subseqid_tail_form:
  "digits st \<Longrightarrow> digits en \<Longrightarrow> subseqid_tail (''_'' @ st @ ''-'' @ en) = Some st"
  by (simp add: subseqid_tail_def re_digits_append re_digits_all)

lemma subseqid_tail_prefix:
  assumes "digits st" "digits en"
  shows "subseqid_tail (''_'' @ st @ ''-'' @ en @ post) \<noteq> None"
proof -
  from re_digits_prefix[OF assms(2)] obtain g r where "re_digits (en @ post) = Some (g, r)" by fastforce
  then show ?thesis using assms(1) by (simp add: subseqid_tail_def re_digits_append)
qed

lemma subseqid_tail_SomeD:
  assumes "subseqid_tail u = Some g"
  shows "\<exists>en post. u = ''_'' @ g @ ''-'' @ en @ post \<and> digits g \<and> digits en"
proof -
  from assms obtain r where u: "u = CHR ''_'' # r"
    by (auto simp: subseqid_tail_def split: list.splits if_splits)
  with assms obtain g2 r2 where d1: "re_digits r = Some (g2, r2)"
    by (auto simp: subseqid_tail_def split: option.splits)
  with assms u obtain r3 where r2: "r2 = CHR ''-'' # r3"
    by (auto simp: subseqid_tail_def split: list.splits if_splits)
  with assms u d1 obtain g3 r4 where d2: "re_digits r3 = Some (g3, r4)" and g: "g = g2"
    by (auto simp: subseqid_tail_def split: option.splits)
  from re_digits_SomeD[OF d1] re_digits_SomeD[OF d2] u r2 g
  have "u = ''_'' @ g @ ''-'' @ g3 @ r4 \<and> digits g \<and> digits g3" by simp
  then show ?thesis by blast
qed

lemma subseqid_tail_no_underscore: "u = [] \<or> hd u \<noteq> CHR ''_'' \<Longrightarrow> subseqid_tail u = None"
  by (cases u) (auto simp: subseqid_tail_def)

lemma subseqid_at_no_underscore: "CHR ''_'' \<notin> set (tl w) \<Longrightarrow> subseqid_at acc w = None"
proof (induction w arbitrary: acc)
  case Nil
  then show ?case by simp
next
  case (Cons c r)
  then have "CHR ''_'' \<notin> set (tl r)" by (cases r) auto
  then have "subseqid_at (acc @ [c]) r = None" by (rule Cons.IH)
  moreover from Cons.prems have "subseqid_tail r = None"
    by (intro subseqid_tail_no_underscore) (cases r; auto)
  ultimately show ?case by simp
qed

lemma subseqid_at_form:
  assumes "sid \<noteq> []" "list_all (\<lambda>c. \<not> is_space c) sid" "digits st" "digits en"
  shows "subseqid_at acc (sid @ ''_'' @ st @ ''-'' @ en) = Some (acc @ sid, st)"
  using assms(1,2)
proof (induction sid arbitrary: acc)
  case Nil
  then show ?case by simp
next
  case (Cons c sid)
  let ?T = "''_'' @ st @ ''-'' @ en"
  show ?case
  proof (cases "sid = []")
    case True
    have "CHR ''_'' \<notin> set (tl ?T)"
      using assms(3,4) by (auto simp: digits_def list_all_iff)
    then have "subseqid_at (acc @ [c]) ?T = None" by (rule subseqid_at_no_underscore)
    with True Cons.prems subseqid_tail_form[OF assms(3,4)] show ?thesis by simp
  next
    case False
    with Cons have "subseqid_at (acc @ [c]) (sid @ ?T) = Some ((acc @ [c]) @ sid, st)" by simp
    with Cons.prems show ?thesis by simp
  qed
qed


lemma subseqid_search_unfold:
  "w \<noteq> [] \<Longrightarrow> subseqid_search w
     = (case subseqid_at [] w of Some m \<Rightarrow> Some m | None \<Rightarrow> subseqid_search (tl w))"
  by (cases w) (auto split: option.splits)

lemma subseqid_search_form:
  assumes "subseqid_form s sid st en"
  shows "subseqid_search s = Some (sid, st)"
proof -
  from assms have s: "s = sid @ ''_'' @ st @ ''-'' @ en" and ne: "sid \<noteq> []"
    and ns: "list_all (\<lambda>c. \<not> is_space c) sid" and d: "digits st" "digits en"
    by (simp_all add: subseqid_form_def)
  from ne s have "s \<noteq> []" by simp
  then have "subseqid_search s = (case subseqid_at [] s of Some m \<Rightarrow> Some m | None \<Rightarrow> subseqid_search (tl s))"
    by (rule subseqid_search_unfold)
  with subseqid_at_form[OF ne ns d, of "[]"] s show ?thesis by simp
qed

lemma subseqid_at_complete:
  assumes "digits st" "digits en"
  shows "sid \<noteq> [] \<Longrightarrow> list_all (\<lambda>c. \<not> is_space c) sid
     \<Longrightarrow> subseqid_at acc (sid @ ''_'' @ st @ ''-'' @ en @ post) \<noteq> None"
proof (induction sid arbitrary: acc)
  case Nil
  then show ?case by simp
next
  case (Cons c sid)
  let ?T = "''_'' @ st @ ''-'' @ en @ post"
  show ?case
  proof (cases "sid = []")
    case True
    with Cons.prems subseqid_tail_prefix[OF assms, of post] show ?thesis
      by (auto split: option.splits)
  next
    case False
    with Cons have "subseqid_at (acc @ [c]) (sid @ ?T) \<noteq> None" by simp
    with Cons.prems show ?thesis by (auto split: option.splits)
  qed
qed

lemma subseqid_search_append: "subseqid_search w \<noteq> None \<Longrightarrow> subseqid_search (pre @ w) \<noteq> None"
  by (induction pre) (auto split: option.splits)

lemma subseqid_search_complete:
  assumes "subseqid_inside s"
  shows "subseqid_search s \<noteq> None"
proof -
  from assms obtain pre sid st en post where s: "s = pre @ sid @ ''_'' @ st @ ''-'' @ en @ post"
    and ne: "sid \<noteq> []" and ns: "list_all (\<lambda>c. \<not> is_space c) sid" and d: "digits st" "digits en"
    unfolding subseqid_inside_def by blast
  let ?w = "sid @ ''_'' @ st @ ''-'' @ en @ post"
  from ne have "?w \<noteq> []" by simp
  then have "subseqid_search ?w = (case subseqid_at [] ?w of Some m \<Rightarrow> Some m | None \<Rightarrow> subseqid_search (tl ?w))"
    by (rule subseqid_search_unfold)
  with subseqid_at_complete[OF d ne ns, of "[]" post] have "subseqid_search ?w \<noteq> None"
    by (auto split: option.splits)
  then show ?thesis unfolding s by (rule subseqid_search_append)
qed

lemma subseqid_at_sound:
  "subseqid_at acc w = Some (g1, g2) \<Longrightarrow>
     \<exists>sid rest. w = sid @ rest \<and> sid \<noteq> [] \<and> list_all (\<lambda>c. \<not> is_space c) sid
                \<and> g1 = acc @ sid \<and> subseqid_tail rest = Some g2"
proof (induction w arbitrary: acc)
  case Nil
  then show ?case by simp
next
  case (Cons c r)
  from Cons.prems have c: "\<not> is_space c" by (auto split: if_splits)
  show ?case
  proof (cases "subseqid_at (acc @ [c]) r")
    case None
    with Cons.prems c have "subseqid_tail r = Some g2" and "g1 = acc @ [c]"
      by (auto split: option.splits)
    with c have "c # r = [c] @ r \<and> [c] \<noteq> [] \<and> list_all (\<lambda>c. \<not> is_space c) [c]
                \<and> g1 = acc @ [c] \<and> subseqid_tail r = Some g2" by simp
    then show ?thesis by blast
  next
    case (Some m)
    with Cons.prems c have "subseqid_at (acc @ [c]) r = Some (g1, g2)" by simp
    from Cons.IH[OF this] obtain sid rest where "r = sid @ rest" "sid \<noteq> []"
      "list_all (\<lambda>c. \<not> is_space c) sid" "g1 = (acc @ [c]) @ sid" "subseqid_tail rest = Some g2"
      by blast
    with c have "c # r = (c # sid) @ rest \<and> c # sid \<noteq> [] \<and> list_all (\<lambda>c. \<not> is_space c) (c # sid)
                \<and> g1 = acc @ (c # sid) \<and> subseqid_tail rest = Some g2" by simp
    then show ?thesis by blast
  qed
qed

lemma subseqid_search_sound:
  "subseqid_search s = Some (g1, g2) \<Longrightarrow> \<exists>pre w. s = pre @ w \<and> subseqid_at [] w = Some (g1, g2)"
proof (induction s)
  case Nil
  then show ?case by simp
next
  case (Cons c r)
  show ?case
  proof (cases "subseqid_at [] (c # r)")
    case None
    with Cons.prems have "subseqid_search r = Some (g1, g2)" by simp
    from Cons.IH[OF this] obtain pre w where "r = pre @ w" "subseqid_at [] w = Some (g1, g2)" by blast
    then have "c # r = (c # pre) @ w \<and> subseqid_at [] w = Some (g1, g2)" by simp
    then show ?thesis by blast
  next
    case (Some m)
    with Cons.prems have "c # r = [] @ (c # r) \<and> subseqid_at [] (c # r) = Some (g1, g2)" by simp
    then show ?thesis by blast
  qed
qed

lemma subseqid_search_inside:
  assumes "subseqid_search s = Some (g1, g2)"
  shows "subseqid_inside s"
proof -
  from subseqid_search_sound[OF assms] obtain pre w where s: "s = pre @ w"
    and "subseqid_at [] w = Some (g1, g2)" by blast
  from subseqid_at_sound[OF this(2)] obtain sid rest where w: "w = sid @ rest" and ne: "sid \<noteq> []"
    and ns: "list_all (\<lambda>c. \<not> is_space c) sid" and "subseqid_tail rest = Some g2" by blast
  from subseqid_tail_SomeD[OF this(4)] obtain en post where r: "rest = ''_'' @ g2 @ ''-'' @ en @ post"
    and d: "digits g2" "digits en" by blast
  from s w r have "s = pre @ sid @ ''_'' @ g2 @ ''-'' @ en @ post" by simp
  with ne ns d show ?thesis unfolding subseqid_inside_def by blast
qed

lemma subseqid_search_None_iff: "subseqid_search s = None \<longleftrightarrow> \<not> subseqid_inside s"
proof
  assume "subseqid_search s = None"
  then show "\<not> subseqid_inside s" using subseqid_search_complete by blast
next
  assume n: "\<not> subseqid_inside s"
  show "subseqid_search s = None"
  proof (cases "subseqid_search s")
    case None
    then show ?thesis .
  next
    case (Some m)
    then have "subseqid_inside s" using subseqid_search_inside[of s "fst m" "snd m"] by simp
    with n show ?thesis by simp
  qed
qed

lemma parse_subseqid_form:
  assumes "subseqid_form s sid st en"
  shows "parse_subseqid s = Some (sid, st, en)"
proof -
  from assms have s: "s = sid @ ''_'' @ st @ ''-'' @ en" and ne: "sid \<noteq> []"
    and ns: "list_all (\<lambda>c. \<not> is_space c) sid" and d: "digits st" "digits en"
    by (simp_all add: subseqid_form_def)
  have r: "rev s = rev en @ CHR ''-'' # (rev st @ CHR ''_'' # rev sid)" using s by simp
  have de: "\<forall>c\<in>set (rev en). is_digit c" "\<forall>c\<in>set (rev st). is_digit c"
    using d by (simp_all add: digits_def list_all_iff)
  have 1: "takeWhile is_digit (rev s) = rev en" "dropWhile is_digit (rev s) = CHR ''-'' # (rev st @ CHR ''_'' # rev sid)"
    unfolding r using de(1) by (simp_all add: takeWhile_tail dropWhile_append3)
  have 2: "takeWhile is_digit (rev st @ CHR ''_'' # rev sid) = rev st"
    "dropWhile is_digit (rev st @ CHR ''_'' # rev sid) = CHR ''_'' # rev sid"
    using de(2) by (simp_all add: takeWhile_tail dropWhile_append3)
  show ?thesis
    unfolding parse_subseqid_def Let_def 1 using ne ns d
    by (simp add: 2 digits_def list_all_iff)
qed

lemma parse_subseqid_SomeD:
  assumes "parse_subseqid s = Some (sid, st, en)"
  shows "subseqid_form s sid st en"
proof -
  let ?r1 = "dropWhile is_digit (rev s)"
  from assms obtain r2 where r1: "?r1 = CHR ''-'' # r2"
    by (auto simp: parse_subseqid_def Let_def split: list.splits if_splits)
  let ?r3 = "dropWhile is_digit r2"
  from assms r1 obtain r4 where r3: "?r3 = CHR ''_'' # r4"
    by (auto simp: parse_subseqid_def Let_def split: list.splits if_splits)
  from assms r1 r3 have v: "sid = rev r4" "st = rev (takeWhile is_digit r2)"
    "en = rev (takeWhile is_digit (rev s))" "r4 \<noteq> []" "list_all (\<lambda>c. \<not> is_space c) r4"
    "takeWhile is_digit r2 \<noteq> []" "takeWhile is_digit (rev s) \<noteq> []"
    by (auto simp: parse_subseqid_def Let_def split: if_splits)
  have "rev s = takeWhile is_digit (rev s) @ ?r1" by simp
  also have "?r1 = CHR ''-'' # (takeWhile is_digit r2 @ ?r3)" using r1 by simp
  finally have "rev s = takeWhile is_digit (rev s) @ CHR ''-'' # (takeWhile is_digit r2 @ CHR ''_'' # r4)"
    using r3 by simp
  then have "rev (rev s) = rev (takeWhile is_digit (rev s) @ CHR ''-'' # (takeWhile is_digit r2 @ CHR ''_'' # r4))"
    by simp
  then have s: "s = sid @ ''_'' @ st @ ''-'' @ en" using v(1-3) by simp
  have "digits st" "digits en"
    using v by (auto simp: digits_def list_all_iff dest: set_takeWhileD)
  with s v show ?thesis by (simp add: subseqid_form_def list_all_iff)
qed

lemma parse_subseqid_iff: "parse_subseqid s = Some (sid, st, en) \<longleftrightarrow> subseqid_form s sid st en"
  using parse_subseqid_form parse_subseqid_SomeD by blast

text \<open>
  Claim C7, as amended. For a subsequence id \<^verbatim>\<open><seqid>_<start>-<end>\<close>, with a seqid that is
  not empty and has no whitespace and with decimal start and end, \<^verbatim>\<open>local_to_global\<close> returns
  the seqid and start plus the local coordinate. It fails, with an assertion error, exactly when
  no part of the id has that form; an id with no underscore or with no dash is such an id. An id
  that has text before or after a part of that form is accepted, since the pattern is searched
  for and is not anchored.
\<close>

theorem local_to_global_convention:
  "(subseqid_form s sid start end' \<longrightarrow>
      local_to_global localcoord s = Inr (sid, int_of_digits start + localcoord))
   \<and> (local_to_global localcoord s = Inl AssertionError \<longleftrightarrow> \<not> subseqid_inside s)
   \<and> (CHR ''_'' \<notin> set s \<or> CHR ''-'' \<notin> set s \<longrightarrow> local_to_global localcoord s = Inl AssertionError)"
proof (intro conjI impI)
  assume "subseqid_form s sid start end'"
  then show "local_to_global localcoord s = Inr (sid, int_of_digits start + localcoord)"
    by (simp add: local_to_global_def subseqid_search_form)
next
  show iff: "local_to_global localcoord s = Inl AssertionError \<longleftrightarrow> \<not> subseqid_inside s"
    by (simp add: local_to_global_def subseqid_search_None_iff[symmetric] split: option.splits)
  assume "CHR ''_'' \<notin> set s \<or> CHR ''-'' \<notin> set s"
  then have "\<not> subseqid_inside s" unfolding subseqid_inside_def by auto
  with iff show "local_to_global localcoord s = Inl AssertionError" by simp
qed

theorem local_to_global_convention_witness:
  "subseqid_form ''chr1_1000-2000'' ''chr1'' ''1000'' ''2000''
   \<and> local_to_global 50 ''chr1_1000-2000'' = Inr (''chr1'', 1050)
   \<and> CHR ''_'' \<notin> set ''chr1'' \<and> \<not> subseqid_inside ''chr1''
   \<and> local_to_global 50 ''chr1'' = Inl AssertionError"
  using local_to_global_convention [of "''chr1_1000-2000''" "''chr1''" "''1000''" "''2000''" 50]
    local_to_global_convention [of "''chr1''" "''chr1''" "''1000''" "''2000''" 50]
  by (auto simp: subseqid_form_def digits_def is_digit_def is_space_def int_of_digits_def
      digit_val_def)

text \<open>
  The claim as it was stated fails on an id that does not follow the convention and is still
  accepted: the end of \<^verbatim>\<open>chr1_1000-2000abc\<close> is not a numeral.
\<close>

theorem local_to_global_counterexample:
  "parse_subseqid ''chr1_1000-2000abc'' = None
   \<and> local_to_global 50 ''chr1_1000-2000abc'' = Inr (''chr1'', 1050)"
  by code_simp

section \<open>The SNV caller\<close>

lemma bind_Inr [simp]: "bind (Inr x) f = f x"
  by (simp add: bind_def)

lemma bind_Inl [simp]: "bind (Inl e) f = Inl e"
  by (simp add: bind_def)

lemma index_nat: "i < length s \<Longrightarrow> index s (int i) = Inr (s ! i)"
  by (simp add: index_def)

lemma local_to_global_shift:
  "local_to_global a s = Inr (sid, g) \<Longrightarrow> local_to_global b s = Inr (sid, g - a + b)"
  by (auto simp: local_to_global_def Let_def split: option.splits)

lemma info_init3:
  "k1 \<noteq> k2 \<Longrightarrow> k1 \<noteq> k3 \<Longrightarrow> k2 \<noteq> k3 \<Longrightarrow>
   init c sid p r a [(k1, v1), (k2, v2), (k3, v3)]
     = \<lparr>cls = c, seqid = sid, pos = p, refr = r, alt = a, info = [(k1, v1), (k2, v2), (k3, v3)]\<rparr>"
  by (simp add: init_def)

lemma diffs_loop_none:
  "\<forall>i\<in>set ixs. i < length t \<and> i < length q \<and> t ! i = q ! i \<Longrightarrow> diffs_loop t q ixs = Inr []"
  by (induction ixs) (simp_all add: index_nat)

lemma diffs_loop_filter:
  "\<forall>i\<in>set ixs. i < length t \<and> i < length q \<Longrightarrow>
   diffs_loop t q ixs = Inr (map (\<lambda>i. (int i, t ! i, q ! i)) (filter (\<lambda>i. t ! i \<noteq> q ! i) ixs))"
  by (induction ixs) (simp_all add: index_nat)

lemma snv_loop_map:
  assumes "local_to_global 0 (name target) = Inr (sid, start)"
  shows "snv_loop target query offset len ksize targetshort t q
           (map (\<lambda>i. (int i, t ! i, q ! i)) ixs) snvs
         = Inr (snvs @ map (snv_record query sid start (if targetshort then 0 else offset) len ksize t q) ixs)"
proof (induction ixs arbitrary: snvs)
  case Nil
  then show ?case by simp
next
  case (Cons i ixs)
  have l: "\<And>lc. local_to_global lc (name target) = Inr (sid, start + lc)"
    using local_to_global_shift[OF assms] by simp
  show ?case
    by (simp add: Let_def l Cons.IH info_init3 snv_record_def)
qed


lemma info_init_nocall:
  "init c sid p r a [(''NC'', v1), (''QN'', v2), (''QS'', v3)]
     = \<lparr>cls = c, seqid = sid, pos = p, refr = r, alt = a,
        info = [(''NC'', v1), (''QN'', v2), (''QS'', v3)]\<rparr>"
  by (simp add: init_def)

text \<open>
  Claim C2. Let \<open>t\<close> and \<open>q\<close> be the two compared windows: for a negative offset the first
  \<open>len\<close> bases of the target and the window of the query shifted by the negated offset,
  otherwise the window of the target shifted by the offset and the first \<open>len\<close> bases of the
  query. When both have length \<open>len\<close>, they differ at some index, and the name of the target
  follows the naming convention, \<^verbatim>\<open>call_snv\<close> returns exactly one SNV record for each index
  where they differ, in ascending order of the index \<open>i\<close>: VW is the slice of \<open>q\<close> from
  \<open>max (i - k + 1) 0\<close> to \<open>min (i + k) len\<close> and RW the same slice of \<open>t\<close>, refr and alt are
  the two characters in upper case, IK is the number of supporting k-mers of the query as a
  string, and seqid and position are \<^verbatim>\<open>local_to_global\<close> of \<open>i\<close>, plus the offset when the
  target is not short, over the name of the target.
\<close>

theorem call_snv_differences:
  fixes target query :: seqrecord and offset len ksize :: int
  defines "t \<equiv> (if offset < 0 then slice_to (sequence target) len
                 else slice (sequence target) offset (offset + len))"
    and "q \<equiv> (if offset < 0 then slice (sequence query) (- offset) (- offset + len)
               else slice_to (sequence query) len)"
    and "shift \<equiv> (if offset < 0 then 0 else offset)"
  assumes "length t = nat len" and "length q = nat len"
    and "\<exists>i<nat len. t ! i \<noteq> q ! i"
    and "local_to_global 0 (name target) = Inr (sid, start)"
  shows "call_snv target query offset len ksize
           = Inr (map (snv_record query sid start shift len ksize t q)
                    (filter (\<lambda>i. t ! i \<noteq> q ! i) [0..<nat len]))
         \<and> (\<forall>i. local_to_global (int i + shift) (name target) = Inr (sid, start + (int i + shift)))"
proof -
  let ?ixs = "filter (\<lambda>i. t ! i \<noteq> q ! i) [0..<nat len]"
  have d: "diffs_loop t q [0..<nat len] = Inr (map (\<lambda>i. (int i, t ! i, q ! i)) ?ixs)"
    using assms(4,5) by (intro diffs_loop_filter) simp
  from assms(6) have ne: "?ixs \<noteq> []" by (auto simp: filter_empty_conv)
  have l: "\<And>lc. local_to_global lc (name target) = Inr (sid, start + lc)"
    using local_to_global_shift[OF assms(7)] by simp
  have "call_snv target query offset len ksize
          = Inr (map (snv_record query sid start shift len ksize t q) ?ixs)"
  proof (cases "offset < 0")
    case True
    with ne d snv_loop_map[OF assms(7), of query "- offset" len ksize True t q ?ixs "[]"]
    show ?thesis
      unfolding t_def q_def shift_def by (simp add: call_snv_def Let_def)
  next
    case False
    with ne d snv_loop_map[OF assms(7), of query offset len ksize False t q ?ixs "[]"]
    show ?thesis
      unfolding t_def q_def shift_def by (simp add: call_snv_def Let_def)
  qed
  with l show ?thesis by simp
qed

theorem call_snv_differences_witness:
  "slice (sequence ex_target) 3 (3 + 10) ! 5 \<noteq> slice_to (sequence ex_query) 10 ! 5
   \<and> local_to_global 0 (name ex_target) = Inr (''chr1'', 100)
   \<and> call_snv ex_target ex_query 3 10 5
       = Inr [\<lparr>cls = VariantSNV, seqid = ''chr1'', pos = 108, refr = ''C'', alt = ''G'',
               info = [(''VW'', ''CATGgATAA''), (''RW'', ''CATGCATAA''), (''IK'', ''2'')]\<rparr>]"
proof -
  let ?t = "slice (sequence ex_target) 3 (3 + 10)"
  let ?q = "slice_to (sequence ex_query) 10"
  have t: "slice (sequence ex_target) 3 13 = ''GCATGCATAA''" and q: "?q = ''GCATGgATAA''"
    by (simp_all add: ex_target_def ex_query_def slice_def slice_to_def clip_def)
  have h1: "length (if (3::int) < 0 then slice_to (sequence ex_target) 10 else ?t) = nat 10"
    and h2: "length (if (3::int) < 0 then slice (sequence ex_query) (- 3) (- 3 + 10) else ?q) = nat 10"
    by (simp_all add: t q)
  have h3: "\<exists>i<nat 10. (if (3::int) < 0 then slice_to (sequence ex_target) 10 else ?t) ! i
                       \<noteq> (if (3::int) < 0 then slice (sequence ex_query) (- 3) (- 3 + 10) else ?q) ! i"
    by (rule exI[of _ 5]) (simp add: t q)
  have h4: "local_to_global 0 (name ex_target) = Inr (''chr1'', 100)"
    by code_simp
  have f: "filter (\<lambda>i. ''GCATGCATAA'' ! i \<noteq> ''GCATGgATAA'' ! i) [0..<nat 10] = [5]"
    by code_simp
  have r: "snv_record ex_query ''chr1'' 100 3 10 5 ''GCATGCATAA'' ''GCATGgATAA'' 5
        = \<lparr>cls = VariantSNV, seqid = ''chr1'', pos = 108, refr = ''C'', alt = ''G'',
               info = [(''VW'', ''CATGgATAA''), (''RW'', ''CATGCATAA''), (''IK'', ''2'')]\<rparr>"
    by code_simp
  from call_snv_differences[OF h1 h2 h3 h4, of 5] t q f r h4 show ?thesis by simp
qed

text \<open>
  Claim C6. When the two compared windows agree at each of the \<open>len\<close> compared indices and the
  name of the target follows the naming convention, \<^verbatim>\<open>call_snv\<close> returns exactly one record:
  a no-call, with refr and alt both a dot, NC \<^verbatim>\<open>perfectmatch\<close>, QN the name of the query and
  QS the compared window of the query, at the global coordinate of the start of the compared
  region, which is local coordinate 0 when the target is short and the offset otherwise.
\<close>

theorem call_snv_perfectmatch:
  fixes target query :: seqrecord and offset len ksize :: int
  defines "t \<equiv> (if offset < 0 then slice_to (sequence target) len
                 else slice (sequence target) offset (offset + len))"
    and "q \<equiv> (if offset < 0 then slice (sequence query) (- offset) (- offset + len)
               else slice_to (sequence query) len)"
  assumes "\<forall>i<nat len. i < length t \<and> i < length q \<and> t ! i = q ! i"
    and "local_to_global (if offset < 0 then 0 else offset) (name target) = Inr (sid, g)"
  shows "call_snv target query offset len ksize
           = Inr [\<lparr>cls = Variant, seqid = sid, pos = g, refr = ''.'', alt = ''.'',
                   info = [(''NC'', ''perfectmatch''), (''QN'', name query), (''QS'', q)]\<rparr>]"
proof -
  have d: "diffs_loop t q [0..<nat len] = Inr []"
    using assms(3) by (intro diffs_loop_none) simp
  show ?thesis
  proof (cases "offset < 0")
    case True
    with d assms(4) show ?thesis
      by (simp add: call_snv_def Let_def t_def q_def info_init_nocall)
  next
    case False
    with d assms(4) show ?thesis
      by (simp add: call_snv_def Let_def t_def q_def info_init_nocall)
  qed
qed


theorem call_snv_perfectmatch_witness:
  "slice (sequence ex_target) 3 (3 + 10) = slice_to (sequence ex_query_same) 10
   \<and> local_to_global 3 (name ex_target) = Inr (''chr1'', 103)
   \<and> call_snv ex_target ex_query_same 3 10 5
       = Inr [\<lparr>cls = Variant, seqid = ''chr1'', pos = 103, refr = ''.'', alt = ''.'',
               info = [(''NC'', ''perfectmatch''), (''QN'', ''contig2''), (''QS'', ''GCATGCATAA'')]\<rparr>]"
proof -
  let ?t = "slice (sequence ex_target) 3 (3 + 10)"
  let ?q = "slice_to (sequence ex_query_same) 10"
  have t: "slice (sequence ex_target) 3 13 = ''GCATGCATAA''" and q: "?q = ''GCATGCATAA''"
    by (simp_all add: ex_target_def ex_query_same_def slice_def slice_to_def clip_def)
  have h1: "\<forall>i<nat 10. i < length (if (3::int) < 0 then slice_to (sequence ex_target) 10 else ?t)
        \<and> i < length (if (3::int) < 0 then slice (sequence ex_query_same) (- 3) (- 3 + 10) else ?q)
        \<and> (if (3::int) < 0 then slice_to (sequence ex_target) 10 else ?t) ! i
          = (if (3::int) < 0 then slice (sequence ex_query_same) (- 3) (- 3 + 10) else ?q) ! i"
    by (simp add: t q)
  have h2: "local_to_global (if (3::int) < 0 then 0 else 3) (name ex_target) = Inr (''chr1'', 103)"
    by code_simp
  from call_snv_perfectmatch[OF h1 h2, of 5] t q h2 show ?thesis
    by (simp add: ex_query_same_def)
qed

section \<open>The dispatch on the operation string\<close>

lemma info_init_inscrutable:
  "init c sid p r a [(''NC'', v1), (''QN'', v2), (''QS'', v3), (''CG'', v4)]
     = \<lparr>cls = c, seqid = sid, pos = p, refr = r, alt = a,
        info = [(''NC'', v1), (''QN'', v2), (''QS'', v3), (''CG'', v4)]\<rparr>"
  by (simp add: init_def)

text \<open>
  Claim C5. For an operation string that matches none of the four recognized shapes and a target
  whose name follows the naming convention, \<^verbatim>\<open>make_call\<close> returns exactly one record: a
  no-call, with refr and alt both a dot, NC \<^verbatim>\<open>inscrutablecigar\<close>, CG the operation string as
  it is, QN the name of the query and QS its whole sequence, at the global coordinate of local
  offset 0 of the target.
\<close>

theorem make_call_inscrutable:
  assumes "\<not> recognized cigar"
    and "local_to_global 0 (name target) = Inr (sid, g)"
  shows "make_call target query cigar ksize
           = Inr [\<lparr>cls = Variant, seqid = sid, pos = g, refr = ''.'', alt = ''.'',
                   info = [(''NC'', ''inscrutablecigar''), (''QN'', name query),
                           (''QS'', sequence query), (''CG'', cigar)]\<rparr>]"
  using assms
  by (auto simp: make_call_def recognized_def Let_def info_init_inscrutable split: option.splits)

theorem make_call_inscrutable_witness:
  "\<not> recognized ''abc''
   \<and> local_to_global 0 (name ex_target) = Inr (''chr1'', 100)
   \<and> make_call ex_target ex_query ''abc'' 5
       = Inr [\<lparr>cls = Variant, seqid = ''chr1'', pos = 100, refr = ''.'', alt = ''.'',
               info = [(''NC'', ''inscrutablecigar''), (''QN'', ''contig1''),
                       (''QS'', ''GCATGgATAA''), (''CG'', ''abc'')]\<rparr>]"
proof -
  have h1: "\<not> recognized ''abc''" by code_simp
  have h2: "local_to_global 0 (name ex_target) = Inr (''chr1'', 100)" by code_simp
  from make_call_inscrutable[OF h1 h2, of ex_query 5] h1 h2 show ?thesis
    by (simp add: ex_query_def)
qed

lemma opchar_simps [simp]:
  "opchar c \<Longrightarrow> \<not> is_digit c"
  "opchar c \<Longrightarrow> c \<in> set ''DI''"
  "opchar c \<Longrightarrow> c \<in> set ''ID''"
  "opchar c \<Longrightarrow> c \<notin> set ''M''"
  by (auto simp: opchar_def is_digit_def)

lemma not_digit_M [simp]: "\<not> is_digit CHR ''M''"
  by (simp add: is_digit_def)

lemma re_digits_Nil [simp]: "re_digits [] = None"
  by (simp add: re_digits_def)

lemma re_digits_not_digit [simp]: "\<not> is_digit c \<Longrightarrow> re_digits (c # r) = None"
  by (simp add: re_digits_def)

lemma re_class_opchar [simp]:
  "opchar c \<Longrightarrow> re_class ''DI'' (c # r) = Some (c, r)"
  "opchar c \<Longrightarrow> re_class ''ID'' (c # r) = Some (c, r)"
  "opchar c \<Longrightarrow> re_class ''M'' (c # r) = None"
  "re_class ''M'' (CHR ''M'' # r) = Some (CHR ''M'', r)"
  "re_class ''DI'' (CHR ''M'' # r) = None"
  "re_class ''ID'' (CHR ''M'' # r) = None"
  by (auto simp: re_class_def opchar_def)

lemma re_class_Nil [simp]: "re_class cs [] = None"
  by (simp add: re_class_def)

lemma digits_not_Nil [simp]: "digits d \<Longrightarrow> d \<noteq> []"
  by (simp add: digits_def)

lemma digits_append_single [simp]: "digits d \<Longrightarrow> d @ c # r \<noteq> [x]"
  by (cases d) (simp_all add: digits_def)

lemma digits_M_digit [simp]: "digits d \<Longrightarrow> is_digit (hd d)"
  by (cases d) (simp_all add: digits_def)

lemma re_class_digits [simp]: "digits d \<Longrightarrow> re_class ''DI'' (d @ r) = None"
  "digits d \<Longrightarrow> re_class ''M'' (d @ r) = None"
  by (cases d; auto simp: digits_def is_digit_def re_class_def)+

lemmas re_simps = re_search_def snv_pattern_def snv_pattern2_def indel_pattern_def indel_pattern2_def
  re_digits_append re_digits_all



lemma snv_plain:
  assumes d: "digits n1" "digits n2" "digits n3" "digits n4" "digits n5" "digits n"
    and c: "opchar o1" "opchar o3" "opchar o5"
  shows "re_search snv_pattern (snv_shape n1 o1 n2 n3 o3) = Some [n1, [o1], n2, n3]"
  using d c by (simp add: re_simps snv_shape_def)

lemma snv_noisy1:
  assumes d: "digits n1" "digits n2" "digits n3" "digits n4" "digits n5" "digits n"
    and c: "opchar o1" "opchar o3" "opchar o5"
  shows "re_search snv_pattern (snv_shape n1 o1 n2 n3 o3 @ n @ ''M'') = None"
  using d c by (simp add: re_simps snv_shape_def)

lemma snv_noisy2:
  assumes d: "digits n1" "digits n2" "digits n3" "digits n4" "digits n5" "digits n"
    and c: "opchar o1" "opchar o3" "opchar o5"
  shows "re_search snv_pattern2 (snv_shape n1 o1 n2 n3 o3 @ n @ ''M'') = Some [n1, [o1], n2, n3, n]"
  using d c by (simp add: re_simps snv_shape_def)

lemma indel_plain1:
  assumes d: "digits n1" "digits n2" "digits n3" "digits n4" "digits n5" "digits n"
    and c: "opchar o1" "opchar o3" "opchar o5"
  shows "re_search snv_pattern (indel_shape n1 o1 n2 n3 o3 n4 n5 o5) = None"
  using d c by (simp add: re_simps indel_shape_def)

lemma indel_plain2:
  assumes d: "digits n1" "digits n2" "digits n3" "digits n4" "digits n5" "digits n"
    and c: "opchar o1" "opchar o3" "opchar o5"
  shows "re_search snv_pattern2 (indel_shape n1 o1 n2 n3 o3 n4 n5 o5) = None"
  using d c by (simp add: re_simps indel_shape_def)

lemma indel_plain3:
  assumes d: "digits n1" "digits n2" "digits n3" "digits n4" "digits n5" "digits n"
    and c: "opchar o1" "opchar o3" "opchar o5"
  shows "re_search indel_pattern (indel_shape n1 o1 n2 n3 o3 n4 n5 o5)
   = Some [n1, [o1], n2, n3, [o3], n4, n5]"
  using d c by (simp add: re_simps indel_shape_def)

lemma indel_noisy1:
  assumes d: "digits n1" "digits n2" "digits n3" "digits n4" "digits n5" "digits n"
    and c: "opchar o1" "opchar o3" "opchar o5"
  shows "re_search snv_pattern (indel_shape n1 o1 n2 n3 o3 n4 n5 o5 @ n @ ''M'') = None"
  using d c by (simp add: re_simps indel_shape_def)

lemma indel_noisy2:
  assumes d: "digits n1" "digits n2" "digits n3" "digits n4" "digits n5" "digits n"
    and c: "opchar o1" "opchar o3" "opchar o5"
  shows "re_search snv_pattern2 (indel_shape n1 o1 n2 n3 o3 n4 n5 o5 @ n @ ''M'') = None"
  using d c by (simp add: re_simps indel_shape_def)

lemma indel_noisy3:
  assumes d: "digits n1" "digits n2" "digits n3" "digits n4" "digits n5" "digits n"
    and c: "opchar o1" "opchar o3" "opchar o5"
  shows "re_search indel_pattern (indel_shape n1 o1 n2 n3 o3 n4 n5 o5 @ n @ ''M'') = None"
  using d c by (simp add: re_simps indel_shape_def)

lemma indel_noisy4:
  assumes d: "digits n1" "digits n2" "digits n3" "digits n4" "digits n5" "digits n"
    and c: "opchar o1" "opchar o3" "opchar o5"
  shows "re_search indel_pattern2 (indel_shape n1 o1 n2 n3 o3 n4 n5 o5 @ n @ ''M'')
   = Some [n1, [o1], n2, n3, [o3], n4, n5, n]"
  using d c by (simp add: re_simps indel_shape_def)


lemma snv_branch_groups:
  "snv_branch target query (g1 # g2 # g3 # rest) ksize
     = snv_branch target query [g1, g2, g3] ksize"
  by (simp add: snv_branch_def group_def)

lemma indel_branch_groups:
  "indel_branch target query (g1 # g2 # g3 # g4 # g5 # rest) ksize
     = indel_branch target query [g1, g2, g3, g4, g5] ksize"
  by (simp add: indel_branch_def group_def)

text \<open>
  Claim C4. For an operation string of one of the two plain shapes and a numeral \<open>n\<close> of value
  at most 5, \<^verbatim>\<open>make_call\<close> on the string with \<open>n\<close> and \<^verbatim>\<open>M\<close> appended gives the same
  result, the same list of records or the same failure, as on the plain string, for the same
  target, query and k-mer size.
\<close>

theorem make_call_trailing_match:
  assumes d: "digits n1" "digits n2" "digits n3" "digits n4" "digits n5" "digits n"
    and c: "opchar o1" "opchar o3" "opchar o5"
    and n: "int_of_digits n \<le> 5"
  shows "make_call target query (snv_shape n1 o1 n2 n3 o3 @ n @ ''M'') ksize
           = make_call target query (snv_shape n1 o1 n2 n3 o3) ksize
       \<and> make_call target query (indel_shape n1 o1 n2 n3 o3 n4 n5 o5 @ n @ ''M'') ksize
           = make_call target query (indel_shape n1 o1 n2 n3 o3 n4 n5 o5) ksize"
proof
  have "make_call target query (snv_shape n1 o1 n2 n3 o3) ksize
          = snv_branch target query [n1, [o1], n2] ksize"
    unfolding make_call_def Let_def snv_plain[OF d c]
    by (simp add: snv_branch_groups[of _ _ n1 "[o1]" n2 "[n3]"])
  moreover have "make_call target query (snv_shape n1 o1 n2 n3 o3 @ n @ ''M'') ksize
          = snv_branch target query [n1, [o1], n2] ksize"
    unfolding make_call_def Let_def snv_noisy1[OF d c] snv_noisy2[OF d c]
    using n by (simp add: group_def snv_branch_groups[of _ _ n1 "[o1]" n2 "[n3, n]"])
  ultimately show "make_call target query (snv_shape n1 o1 n2 n3 o3 @ n @ ''M'') ksize
           = make_call target query (snv_shape n1 o1 n2 n3 o3) ksize" by simp
next
  have "make_call target query (indel_shape n1 o1 n2 n3 o3 n4 n5 o5) ksize
          = indel_branch target query [n1, [o1], n2, n3, [o3]] ksize"
    unfolding make_call_def Let_def indel_plain1[OF d c] indel_plain2[OF d c] indel_plain3[OF d c]
    by (simp add: indel_branch_groups[of _ _ n1 "[o1]" n2 n3 "[o3]" "[n4, n5]"])
  moreover have "make_call target query (indel_shape n1 o1 n2 n3 o3 n4 n5 o5 @ n @ ''M'') ksize
          = indel_branch target query [n1, [o1], n2, n3, [o3]] ksize"
    unfolding make_call_def Let_def indel_noisy1[OF d c] indel_noisy2[OF d c]
      indel_noisy3[OF d c] indel_noisy4[OF d c]
    using n by (simp add: group_def indel_branch_groups[of _ _ n1 "[o1]" n2 n3 "[o3]" "[n4, n5, n]"])
  ultimately show "make_call target query (indel_shape n1 o1 n2 n3 o3 n4 n5 o5 @ n @ ''M'') ksize
           = make_call target query (indel_shape n1 o1 n2 n3 o3 n4 n5 o5) ksize" by simp
qed

theorem make_call_trailing_match_witness:
  "digits ''3'' \<and> digits ''10'' \<and> digits ''0'' \<and> digits ''4'' \<and> digits ''2'' \<and> opchar CHR ''D''
   \<and> int_of_digits ''4'' \<le> 5
   \<and> make_call ex_target ex_query ''3D10M0D4M'' 5 = make_call ex_target ex_query ''3D10M0D'' 5
   \<and> make_call ex_target ex_query ''3D10M0D'' 5
       = Inr [\<lparr>cls = VariantSNV, seqid = ''chr1'', pos = 108, refr = ''C'', alt = ''G'',
               info = [(''VW'', ''CATGgATAA''), (''RW'', ''CATGCATAA''), (''IK'', ''2'')]\<rparr>]
   \<and> make_call ex_target ex_query_del ''3D4M2D4M0D4M'' 3
       = make_call ex_target ex_query_del ''3D4M2D4M0D'' 3
   \<and> make_call ex_target ex_query_del ''3D4M2D4M0D'' 3
       = Inr [\<lparr>cls = VariantIndel, seqid = ''chr1'', pos = 106, refr = ''TGC'', alt = ''T'',
               info = [(''VW'', ''ATAT''), (''RW'', ''ATGCAT''), (''IK'', ''1'')]\<rparr>]"
proof -
  have d: "digits ''3''" "digits ''10''" "digits ''0''" "digits ''4''" "digits ''2''"
    by (simp_all add: digits_def is_digit_def)
  have c: "opchar CHR ''D''" by (simp add: opchar_def)
  have n: "int_of_digits ''4'' \<le> 5" by (simp add: int_of_digits_def digit_val_def)
  have r1: "make_call ex_target ex_query ''3D10M0D'' 5
       = Inr [\<lparr>cls = VariantSNV, seqid = ''chr1'', pos = 108, refr = ''C'', alt = ''G'',
               info = [(''VW'', ''CATGgATAA''), (''RW'', ''CATGCATAA''), (''IK'', ''2'')]\<rparr>]"
    by code_simp
  have r2: "make_call ex_target ex_query_del ''3D4M2D4M0D'' 3
       = Inr [\<lparr>cls = VariantIndel, seqid = ''chr1'', pos = 106, refr = ''TGC'', alt = ''T'',
               info = [(''VW'', ''ATAT''), (''RW'', ''ATGCAT''), (''IK'', ''1'')]\<rparr>]"
    by code_simp
  from make_call_trailing_match[OF d(1,2,3,4,3,4) c c c n, of ex_target ex_query 5]
    make_call_trailing_match[OF d(1,4,5,4,3,4) c c c n, of ex_target ex_query_del 3]
    d c n r1 r2
  show ?thesis by (simp add: snv_shape_def indel_shape_def)
qed

section \<open>The indel callers\<close>

lemma index_0: "index s 0 = (if s = [] then Inl IndexError else Inr (hd s))"
  by (cases s) (simp_all add: index_def)

lemma call_deletion_eq:
  "call_deletion target query offset ksize leftmatch indellength =
     (let d = deleted_allele target offset leftmatch indellength
      in if d = [] then Inl IndexError
         else bind (local_to_global (leftmatch + (if offset < 0 then 0 else offset)) (name target))
                (\<lambda>(sid, g). Inr [indel_record query sid g d [hd d]
                     (deletion_windows target query offset ksize leftmatch indellength)]))"
  by (auto simp: call_deletion_def deletion_allele_def insertion_allele_def Let_def index_0
      deleted_allele_def deletion_windows_def indel_record_def info_init3 bind_def
      algebra_simps split: sum.splits prod.splits)

lemma call_insertion_eq:
  "call_insertion target query offset ksize leftmatch indellength =
     (let a = inserted_allele query offset leftmatch indellength
      in if a = [] then Inl IndexError
         else if int (length a) \<noteq> indellength + 1 then Inl AssertionError
         else bind (local_to_global (leftmatch + (if offset < 0 then 0 else offset)) (name target))
                (\<lambda>(sid, g). Inr [indel_record query sid g [hd a] a
                     (insertion_windows target query offset ksize leftmatch indellength)]))"
  by (auto simp: call_insertion_def deletion_allele_def insertion_allele_def Let_def index_0
      inserted_allele_def insertion_windows_def indel_record_def info_init3 bind_def
      algebra_simps split: sum.splits prod.splits)




text \<open>
  Claim C9, as amended. Whenever \<^verbatim>\<open>call_insertion\<close> returns, its alternate allele, which
  spans the insertion, has \<open>indellength + 1\<close> bases, and when that allele is not empty and has
  another length the call fails with an assertion error, whatever the lengths of the query and the
  target. \<^verbatim>\<open>call_deletion\<close> makes no check of the length: whenever its reference allele is not
  empty and the name of the target follows the naming convention it returns that allele, of
  whatever length.
\<close>

theorem insertion_length_check:
  fixes target query :: seqrecord and offset ksize leftmatch indellength :: int
  defines "d \<equiv> deleted_allele target offset leftmatch indellength"
    and "a \<equiv> inserted_allele query offset leftmatch indellength"
  shows "(call_insertion target query offset ksize leftmatch indellength = Inr vs \<longrightarrow>
            (\<exists>v. vs = [v] \<and> alt v = a \<and> int (length (alt v)) = indellength + 1))
       \<and> (a \<noteq> [] \<and> int (length a) \<noteq> indellength + 1 \<longrightarrow>
            call_insertion target query offset ksize leftmatch indellength = Inl AssertionError)
       \<and> (call_deletion target query offset ksize leftmatch indellength = Inr vs \<longrightarrow>
            (\<exists>v. vs = [v] \<and> refr v = d))
       \<and> (d \<noteq> []
            \<and> local_to_global (leftmatch + (if offset < 0 then 0 else offset)) (name target)
               = Inr (sid, g) \<longrightarrow>
            call_deletion target query offset ksize leftmatch indellength
              = Inr [indel_record query sid g d [hd d]
                       (deletion_windows target query offset ksize leftmatch indellength)])"
  by (auto simp: call_deletion_eq call_insertion_eq d_def a_def Let_def indel_record_def bind_def
      split: sum.splits if_splits)


theorem insertion_length_check_witness:
  "call_insertion ex_target_del ex_query_ins 0 3 4 2
       = Inr [\<lparr>cls = VariantIndel, seqid = ''chr1'', pos = 103, refr = ''T'', alt = ''TGC'',
               info = [(''VW'', ''ATGCAT''), (''RW'', ''ATAT''), (''IK'', ''0'')]\<rparr>]
   \<and> int (length ''TGC'') = 2 + 1
   \<and> inserted_allele ex_target 0 12 5 = ''AA'' \<and> int (length ''AA'') \<noteq> 5 + 1
   \<and> call_insertion ex_query_same ex_target 0 3 12 5 = Inl AssertionError
   \<and> deleted_allele ex_target 3 9 5 = ''AA''
   \<and> local_to_global (9 + (if (3::int) < 0 then 0 else 3)) (name ex_target) = Inr (''chr1'', 112)
   \<and> call_deletion ex_target ex_query_del 3 3 9 5
       = Inr [\<lparr>cls = VariantIndel, seqid = ''chr1'', pos = 111, refr = ''AA'', alt = ''A'',
               info = [(''VW'', ''A''), (''RW'', ''TAA''), (''IK'', ''1'')]\<rparr>]"
proof -
  have c1: "call_insertion ex_target_del ex_query_ins 0 3 4 2
       = Inr [\<lparr>cls = VariantIndel, seqid = ''chr1'', pos = 103, refr = ''T'', alt = ''TGC'',
               info = [(''VW'', ''ATGCAT''), (''RW'', ''ATAT''), (''IK'', ''0'')]\<rparr>]"
    by code_simp
  have a: "inserted_allele ex_target 0 12 5 = ''AA''" by code_simp
  have d: "deleted_allele ex_target 3 9 5 = ''AA''" by code_simp
  have h: "local_to_global (9 + (if (3::int) < 0 then 0 else 3)) (name ex_target) = Inr (''chr1'', 112)"
    by code_simp
  have w: "deletion_windows ex_target ex_query_del 3 3 9 5 = (''A'', ''TAA'')" by code_simp
  have k: "str_int (int (length (ikmers ex_query_del))) = ''1''" by code_simp
  from insertion_length_check[where target = ex_query_same and query = ex_target and offset = 0
      and ksize = 3 and leftmatch = 12 and indellength = 5]
    insertion_length_check[where target = ex_target and query = ex_query_del and offset = 3
      and ksize = 3 and leftmatch = 9 and indellength = 5 and sid = "''chr1''" and g = 112]
    c1 a d h w k
  show ?thesis by (simp add: indel_record_def)
qed

text \<open>
  The claim as it was stated fails twice. A deletion call whose query is not longer than its
  target returns a reference allele of 2 bases for an indel of 5; and an insertion call whose
  query is longer than its target fails on an allele of 2 bases for an indel of 5.
\<close>

theorem indel_length_counterexample:
  "length (sequence ex_query_del) \<le> length (sequence ex_target)
   \<and> call_deletion ex_target ex_query_del 3 3 9 5
       = Inr [\<lparr>cls = VariantIndel, seqid = ''chr1'', pos = 111, refr = ''AA'', alt = ''A'',
               info = [(''VW'', ''A''), (''RW'', ''TAA''), (''IK'', ''1'')]\<rparr>]
   \<and> int (length ''AA'') \<noteq> 5 + 1
   \<and> length (sequence ex_target) > length (sequence ex_query_same)
   \<and> inserted_allele ex_target 0 12 5 = ''AA''
   \<and> call_insertion ex_query_same ex_target 0 3 12 5 = Inl AssertionError"
  by code_simp

section \<open>Mate distance\<close>











section \<open>Tied candidates\<close>











end
